theory Spec2Isabelle
  imports Main "HOL-Library.Word"
begin

unbundle bit_operations_syntax

section \<open>Block processing (lib/runBlock.js)\<close>

text \<open>
  A shallow embedding of \<^verbatim>\<open>module.exports = function (opts, cb)\<close> of
  \<^verbatim>\<open>lib/runBlock.js\<close>. The function is written in continuation-passing style over
  \<^verbatim>\<open>async.series\<close> and \<^verbatim>\<open>async.eachSeries\<close>; the embedding is the sequential
  program those combinators run, with the variables of the closure (\<^verbatim>\<open>gasUsed\<close>,
  \<^verbatim>\<open>bloom\<close>, \<^verbatim>\<open>receipts\<close>, \<^verbatim>\<open>txResults\<close>, \<^verbatim>\<open>receiptTrie\<close>,
  \<^verbatim>\<open>validReceiptCount\<close>, the block) and the state trie of \<^verbatim>\<open>self.stateManager\<close>
  threaded through as one record. Everything the file calls but does not define (the
  lifecycle hooks, \<^verbatim>\<open>runTx\<close>, the account store, RLP, the receipt trie's hash, the
  consensus parameter) is a field of the record \<open>env\<close>.

  What the embedding takes for granted:
  \<^item> every collaborator calls its callback, once; a hook or an executor that never calls back
    leaves the function waiting, and that is not modelled;
  \<^item> the store calls back before it returns, so that \<^verbatim>\<open>async.each\<close> over the ommers is the
    loop from left to right that stops the series at the first error; the state of the model
    is the state at the moment the callback \<^verbatim>\<open>cb\<close> is called, and what \<^verbatim>\<open>async.each\<close> still
    starts for the ommers behind a failing one is not part of it;
  \<^item> the number fields of a header and of a transaction are buffers that hold naturals, and
    \<^verbatim>\<open>ethUtil.bufferToInt\<close> and \<^verbatim>\<open>Number\<close> give these numbers exactly, as they do below
    \<open>2^53\<close>;
  \<^item> \<^verbatim>\<open>opts\<close>, when given, is an object.
\<close>

subsection \<open>Data\<close>

type_synonym bytes = "8 word list"
type_synonym address = bytes

text \<open>The bit-vector of a \<^verbatim>\<open>Bloom\<close>: 256 bytes.\<close>

type_synonym bitvector = "2048 word"

text \<open>A JavaScript \<^verbatim>\<open>Error\<close> with its message.\<close>

datatype error = Error string

text \<open>What \<^verbatim>\<open>rlp.encode\<close> is given: numbers, buffers and nested arrays.\<close>

datatype rlp_item = RInt nat | RBuf bytes | RBits bitvector | RList "rlp_item list"

record header =
  h_gasLimit :: nat
  h_gasUsed :: nat
  h_stateRoot :: bytes
  h_receiptTrie :: bytes
  h_bloom :: bitvector
  h_coinbase :: address
  h_number :: nat

record tx =
  tx_gasLimit :: nat
  tx_data :: bytes

record block =
  b_header :: header
  b_transactions :: "tx list"
  b_uncleHeaders :: "header list"

text \<open>
  The \<^verbatim>\<open>result\<close> that \<^verbatim>\<open>runTx\<close> hands to \<^verbatim>\<open>parseTxResult\<close> on success:
  \<^verbatim>\<open>result.gasUsed\<close>, \<^verbatim>\<open>result.bloom.bitvector\<close>, \<^verbatim>\<open>result.vm.exception\<close> (a number, read
  for its truthiness) and \<^verbatim>\<open>result.vm.logs\<close> (possibly undefined).
\<close>

record tx_result =
  r_gasUsed :: nat
  r_bloom :: bitvector
  r_exception :: nat
  r_logs :: "rlp_item list option"

text \<open>
  An entry of \<^verbatim>\<open>txResults\<close>: the second argument of the executor's callback, which is
  a result on success and whatever the executor passed (usually nothing) on failure.
\<close>

datatype js_val = Undefined | ResultVal tx_result | ErrorVal error

text \<open>The two ways the executor calls back: \<^verbatim>\<open>(null, result)\<close> or \<^verbatim>\<open>(err, anything)\<close>.\<close>

datatype exec_outcome = ExecOk tx_result | ExecErr error js_val

record receipt =
  rc_status :: nat
  rc_gasUsed :: bytes
  rc_bitvector :: bitvector
  rc_logs :: "rlp_item list"

record block_result =
  br_receipts :: "receipt option list"
  br_results :: "js_val list"
  br_error :: "error option"

record account =
  a_nonce :: nat
  a_balance :: nat

record opts =
  o_block :: "block option"
  o_generate :: bool
  o_root :: "bytes option"

text \<open>
  The calls that leave the function, in the order they are made: the trie's
  \<^verbatim>\<open>checkpoint\<close>, \<^verbatim>\<open>revert\<close> and \<^verbatim>\<open>commit\<close>, the cache's \<^verbatim>\<open>flush\<close> and
  \<^verbatim>\<open>clear\<close>, the two hooks, \<^verbatim>\<open>runTx\<close> and the caller's callback \<^verbatim>\<open>cb\<close> with its
  arguments.
\<close>

datatype event =
    EvCheckpoint
  | EvBeforeBlock block
  | EvRunTx tx
  | EvRevert
  | EvCommit
  | EvFlush
  | EvClear
  | EvAfterBlock block_result
  | EvCallback "error option" "block_result option"

text \<open>
  The collaborators. Each one that can touch the state trie maps the trie's root to its new
  root: they may open checkpoints of their own, but leave the stack as they found it.
\<close>

record env =
  emit_beforeBlock :: "block \<Rightarrow> bytes \<Rightarrow> error option \<times> bytes"
  emit_afterBlock :: "block_result \<Rightarrow> bytes \<Rightarrow> error option \<times> bytes"
  runTx :: "tx \<Rightarrow> block \<Rightarrow> bytes \<Rightarrow> exec_outcome \<times> bytes"
  getAccount :: "address \<Rightarrow> bytes \<Rightarrow> error + account"
  putAccount :: "address \<Rightarrow> account \<Rightarrow> bytes \<Rightarrow> error option \<times> bytes"
  trie_commit :: "bytes \<Rightarrow> error option"
  cache_flush :: "bytes \<Rightarrow> bytes"
  rlp_encode :: "rlp_item \<Rightarrow> bytes"
  receiptTrie_root :: "(bytes \<times> bytes) list \<Rightarrow> bytes option"
  minerReward :: nat

text \<open>
  \<^verbatim>\<open>self\<close>: the state trie's root pointer and its stack of checkpoints, and the log of
  calls. \<open>state\<close> adds the variables of the closure.
\<close>

record self =
  s_root :: bytes
  s_checkpoints :: "bytes list"
  s_trace :: "event list"

record state = self +
  st_block :: block
  st_gasUsed :: int
  st_bloom :: bitvector
  st_receipts :: "receipt option list"
  st_txResults :: "js_val list"
  st_receiptTrie :: "(bytes \<times> bytes) list"
  st_validReceiptCount :: nat

text \<open>
  The place where the series was stopped: the \<^verbatim>\<open>beforeBlock\<close> hook with its error, the gas
  limit check of \<^verbatim>\<open>processTx\<close> (line 73), \<^verbatim>\<open>parseTxResult\<close> with the error of the executor
  (line 90), or \<^verbatim>\<open>rewardAccount\<close> with the error of the store (lines 162 and 165). The source
  passes on the error alone, which is \<open>failure_error\<close>; the place is kept because an
  executor may fail with the very message of the gas limit check.
\<close>

datatype failure =
    BeforeBlockFailed error
  | GasLimitExceeded
  | ExecutorFailed error
  | RewardFailed error

fun failure_error :: "failure \<Rightarrow> error" where
  "failure_error (BeforeBlockFailed e) = e"
| "failure_error GasLimitExceeded = Error ''tx has a higher gas limit than the block''"
| "failure_error (ExecutorFailed e) = e"
| "failure_error (RewardFailed e) = e"

text \<open>The three ways the function reaches \<^verbatim>\<open>cb\<close>.\<close>

datatype run_result =
    InvalidInput error self
  | Aborted failure state
  | Completed "error option" block_result state

fun callback_args :: "run_result \<Rightarrow> error option \<times> block_result option" where
  "callback_args (InvalidInput e s) = (Some e, None)"
| "callback_args (Aborted f st) = (Some (failure_error f), None)"
| "callback_args (Completed err res st) = (err, Some res)"

subsection \<open>Library functions\<close>

text \<open>
  \<^verbatim>\<open>BN.toArrayLike(Buffer)\<close>: the magnitude in big-endian bytes, as few as hold it and at
  least one.
\<close>

function be_bytes :: "nat \<Rightarrow> bytes" where
  "be_bytes n = (if n < 256 then [of_nat n] else be_bytes (n div 256) @ [of_nat (n mod 256)])"
  by pat_completeness auto
termination
  by (relation "measure id") auto

definition toArrayLike :: "int \<Rightarrow> bytes" where
  "toArrayLike n = be_bytes (nat \<bar>n\<bar>)"

text \<open>The number a big-endian buffer holds (\<^verbatim>\<open>new BN(buffer)\<close>).\<close>

definition be_nat :: "bytes \<Rightarrow> nat" where
  "be_nat bs = foldl (\<lambda>acc b. acc * 256 + unat b) 0 bs"

text \<open>
  \<^verbatim>\<open>(err || '') + fragment\<close> converts an \<^verbatim>\<open>Error\<close> with \<^verbatim>\<open>Error.prototype.toString\<close>:
  the name, and \<^verbatim>\<open>": "\<close> and the message when there is one.
\<close>

fun errToString :: "error \<Rightarrow> string" where
  "errToString (Error m) = (if m = [] then ''Error'' else ''Error: '' @ m)"

definition errOrEmpty :: "error option \<Rightarrow> string" where
  "errOrEmpty err = (case err of None \<Rightarrow> [] | Some e \<Rightarrow> errToString e)"

text \<open>
  Modelled from the spec: \<^verbatim>\<open>Bloom.prototype.or\<close> of \<^verbatim>\<open>lib/bloom.js\<close>, which is not
  among the sources. The aggregator "accumulates per-transaction bloom filters via bitwise
  OR".
\<close>

definition bloom_or :: "bitvector \<Rightarrow> bitvector \<Rightarrow> bitvector" where
  "bloom_or b r = b OR r"

text \<open>
  Modelled from the spec: \<^verbatim>\<open>new Bloom()\<close> of \<^verbatim>\<open>lib/bloom.js\<close>. The bloom of an empty
  block is "all-zero".
\<close>

definition new_Bloom :: bitvector where
  "new_Bloom = 0"

text \<open>
  Modelled from the spec: \<^verbatim>\<open>checkpoint()\<close> of the state store, which is not among the
  sources. A checkpoint is "an opaque marker on the state store enabling revert to undo
  every mutation since it was taken, or commit to make them permanent". The state of the
  store is the root of its trie, so the marker is the root, pushed on a stack.
\<close>

definition checkpoint :: "state \<Rightarrow> state" where
  "checkpoint st = st\<lparr>s_checkpoints := s_root st # s_checkpoints st,
                      s_trace := s_trace st @ [EvCheckpoint]\<rparr>"

text \<open>
  Modelled from the spec: \<^verbatim>\<open>revert()\<close> of the state store, which undoes "every mutation
  since" the checkpoint: the root on top of the stack is popped back into place. It does
  nothing to the root where there is no checkpoint.
\<close>

definition revert :: "state \<Rightarrow> state" where
  "revert st =
     (case s_checkpoints st of
        [] \<Rightarrow> st\<lparr>s_trace := s_trace st @ [EvRevert]\<rparr>
      | r # cs \<Rightarrow> st\<lparr>s_root := r, s_checkpoints := cs, s_trace := s_trace st @ [EvRevert]\<rparr>)"

text \<open>
  Modelled from the spec: \<^verbatim>\<open>commit()\<close> of the state store, which makes the mutations since
  the checkpoint "permanent": the root on top of the stack is dropped. The function commits
  only under the checkpoint it has opened itself.
\<close>

definition commit :: "state \<Rightarrow> state" where
  "commit st = st\<lparr>s_checkpoints := tl (s_checkpoints st), s_trace := s_trace st @ [EvCommit]\<rparr>"

subsection \<open>Transactions\<close>

text \<open>One step of \<^verbatim>\<open>async.eachSeries\<close>: go on, or stop with the error.\<close>

datatype step = Next state | Abort failure state

definition setHeaderBloom :: "block \<Rightarrow> bitvector \<Rightarrow> block" where
  "setHeaderBloom b v = b\<lparr>b_header := (b_header b)\<lparr>h_bloom := v\<rparr>\<rparr>"

definition setHeaderStateRoot :: "block \<Rightarrow> bytes \<Rightarrow> block" where
  "setHeaderStateRoot b r = b\<lparr>b_header := (b_header b)\<lparr>h_stateRoot := r\<rparr>\<rparr>"

text \<open>Line 71: the block's gas limit is less than the transaction's plus the gas used so far.\<close>

definition gasLimitIsHigherThanBlock :: "state \<Rightarrow> tx \<Rightarrow> bool" where
  "gasLimitIsHigherThanBlock st t =
     (int (h_gasLimit (b_header (st_block st))) < int (tx_gasLimit t) + st_gasUsed st)"

text \<open>
  Line 105, \<^verbatim>\<open>result.vm.exception ? 1 : 0\<close>, with the source's remark that
  \<^verbatim>\<open>result.vm.exception\<close> "is 0 when an exception occurs, and 1 when it doesn't".
\<close>

definition receipt_status :: "tx_result \<Rightarrow> nat" where
  "receipt_status result = (if r_exception result \<noteq> 0 then 1 else 0)"

text \<open>Line 102: \<^verbatim>\<open>result.vm.logs || []\<close>.\<close>

definition txLogs :: "tx_result \<Rightarrow> rlp_item list" where
  "txLogs result = (case r_logs result of None \<Rightarrow> [] | Some ls \<Rightarrow> ls)"

text \<open>Lines 104 to 115: the tuple that is serialised, and the receipt with the same four fields.\<close>

definition rawTxReceipt :: "int \<Rightarrow> tx_result \<Rightarrow> rlp_item" where
  "rawTxReceipt gas result =
     RList [RInt (receipt_status result), RBuf (toArrayLike gas), RBits (r_bloom result),
            RList (txLogs result)]"

definition txReceipt :: "int \<Rightarrow> tx_result \<Rightarrow> receipt" where
  "txReceipt gas result =
     \<lparr>rc_status = receipt_status result, rc_gasUsed = toArrayLike gas,
      rc_bitvector = r_bloom result, rc_logs = txLogs result\<rparr>"

text \<open>
  Lines 83 to 122. The result is pushed first, whatever it is; on an error a null receipt
  follows and the loop is stopped. The error of \<^verbatim>\<open>receiptTrie.put\<close> is not looked at.
\<close>

definition parseTxResult :: "env \<Rightarrow> bool \<Rightarrow> state \<Rightarrow> exec_outcome \<Rightarrow> step" where
  "parseTxResult env generateStateRoot st out =
     (case out of
        ExecErr err result \<Rightarrow>
          Abort (ExecutorFailed err)
            (st\<lparr>st_txResults := st_txResults st @ [result],
                st_receipts := st_receipts st @ [None]\<rparr>)
      | ExecOk result \<Rightarrow>
          (let gas = st_gasUsed st + int (r_gasUsed result);
               bloom = bloom_or (st_bloom st) (r_bloom result);
               blk = (if generateStateRoot then setHeaderBloom (st_block st) bloom
                      else st_block st)
           in Next
             (st\<lparr>st_txResults := st_txResults st @ [ResultVal result],
                 st_gasUsed := gas,
                 st_bloom := bloom,
                 st_block := blk,
                 st_receipts := st_receipts st @ [Some (txReceipt gas result)],
                 st_receiptTrie := st_receiptTrie st @
                   [(rlp_encode env (RInt (st_validReceiptCount st)),
                     rlp_encode env (rawTxReceipt gas result))],
                 st_validReceiptCount := Suc (st_validReceiptCount st)\<rparr>)))"

text \<open>Lines 70 to 81.\<close>

definition processTx :: "env \<Rightarrow> bool \<Rightarrow> state \<Rightarrow> tx \<Rightarrow> step" where
  "processTx env generateStateRoot st t =
     (if gasLimitIsHigherThanBlock st t then Abort GasLimitExceeded st
      else
        (case runTx env t (st_block st) (s_root st) of
           (out, root') \<Rightarrow>
             parseTxResult env generateStateRoot
               (st\<lparr>s_root := root', s_trace := s_trace st @ [EvRunTx t]\<rparr>) out))"

text \<open>Line 68: \<^verbatim>\<open>async.eachSeries\<close> over \<^verbatim>\<open>block.transactions\<close>.\<close>

fun processTransactions :: "env \<Rightarrow> bool \<Rightarrow> state \<Rightarrow> tx list \<Rightarrow> failure option \<times> state" where
  "processTransactions env g st [] = (None, st)"
| "processTransactions env g st (t # ts) =
     (case processTx env g st t of
        Abort f st' \<Rightarrow> (Some f, st')
      | Next st' \<Rightarrow> processTransactions env g st' ts)"

subsection \<open>Rewards\<close>

text \<open>
  Lines 139 to 145. \<^verbatim>\<open>divn\<close> rounds towards zero, which is down for a miner reward that
  is not negative.
\<close>

definition ommerReward :: "nat \<Rightarrow> nat \<Rightarrow> nat \<Rightarrow> int" where
  "ommerReward mr blockNumber ommerNumber =
     (let heightDiff = int blockNumber - int ommerNumber;
          reward = (8 - heightDiff) * (int mr div 8)
      in if reward < 0 then 0 else reward)"

text \<open>Lines 153 to 156.\<close>

definition minerTotalReward :: "nat \<Rightarrow> nat \<Rightarrow> int" where
  "minerTotalReward mr ommerCount =
     (let niblingReward = int mr div 32;
          totalNiblingReward = niblingReward * int ommerCount
      in int mr + totalNiblingReward)"

text \<open>
  Lines 160 to 167. The new balance is a \<^verbatim>\<open>BN\<close> that is not negative, and is stored as
  the buffer of that number.
\<close>

definition rewardAccount :: "env \<Rightarrow> address \<Rightarrow> int \<Rightarrow> state \<Rightarrow> failure option \<times> state" where
  "rewardAccount env addr reward st =
     (case getAccount env addr (s_root st) of
        Inl err \<Rightarrow> (Some (RewardFailed err), st)
      | Inr acc \<Rightarrow>
          (case putAccount env addr (acc\<lparr>a_balance := nat (int (a_balance acc) + reward)\<rparr>)
                  (s_root st) of
             (err, root') \<Rightarrow> (map_option RewardFailed err, st\<lparr>s_root := root'\<rparr>)))"

text \<open>
  \<^verbatim>\<open>async.each\<close> over \<^verbatim>\<open>block.uncleHeaders\<close>, with a store that calls back at once: the
  ommers in the order of the list, up to the first error.
\<close>

fun rewardOmmers :: "env \<Rightarrow> state \<Rightarrow> header list \<Rightarrow> failure option \<times> state" where
  "rewardOmmers env st [] = (None, st)"
| "rewardOmmers env st (ommer # rest) =
     (case rewardAccount env (h_coinbase ommer)
             (ommerReward (minerReward env) (h_number (b_header (st_block st))) (h_number ommer))
             st of
        (Some f, st') \<Rightarrow> (Some f, st')
      | (None, st') \<Rightarrow> rewardOmmers env st' rest)"

definition rewardMiner :: "env \<Rightarrow> state \<Rightarrow> failure option \<times> state" where
  "rewardMiner env st =
     rewardAccount env (h_coinbase (b_header (st_block st)))
       (minerTotalReward (minerReward env) (length (b_uncleHeaders (st_block st)))) st"

definition payOmmersAndMiner :: "env \<Rightarrow> state \<Rightarrow> failure option \<times> state" where
  "payOmmersAndMiner env st =
     (case rewardOmmers env st (b_uncleHeaders (st_block st)) of
        (Some f, st') \<Rightarrow> (Some f, st')
      | (None, st') \<Rightarrow> rewardMiner env st')"

subsection \<open>The series and its end\<close>

text \<open>Lines 52 to 54.\<close>

definition beforeBlock :: "env \<Rightarrow> state \<Rightarrow> failure option \<times> state" where
  "beforeBlock env st =
     (case emit_beforeBlock env (st_block st) (s_root st) of
        (err, root') \<Rightarrow>
          (map_option BeforeBlockFailed err,
           st\<lparr>s_root := root', s_trace := s_trace st @ [EvBeforeBlock (st_block st)]\<rparr>))"

text \<open>Lines 46 to 50: \<^verbatim>\<open>async.series\<close>, up to the first error.\<close>

definition series :: "env \<Rightarrow> bool \<Rightarrow> state \<Rightarrow> failure option \<times> state" where
  "series env g st =
     (case beforeBlock env st of
        (Some f, st1) \<Rightarrow> (Some f, st1)
      | (None, st1) \<Rightarrow>
          (case processTransactions env g st1 (b_transactions (st_block st1)) of
             (Some f, st2) \<Rightarrow> (Some f, st2)
           | (None, st2) \<Rightarrow> payOmmersAndMiner env st2))"

text \<open>The four checks of validation mode, each with the fragment it appends.\<close>

definition invalid_receiptTrie :: "env \<Rightarrow> state \<Rightarrow> bool" where
  "invalid_receiptTrie env st =
     (case receiptTrie_root env (st_receiptTrie st) of
        None \<Rightarrow> False
      | Some r \<Rightarrow> r \<noteq> h_receiptTrie (b_header (st_block st)))"

definition invalid_bloom :: "state \<Rightarrow> bool" where
  "invalid_bloom st = (st_bloom st \<noteq> h_bloom (b_header (st_block st)))"

text \<open>
  \<^verbatim>\<open>ethUtil.bufferToInt(block.header.gasUsed) !== Number(gasUsed)\<close>, on the numbers the two
  sides stand for.
\<close>

definition invalid_gasUsed :: "state \<Rightarrow> bool" where
  "invalid_gasUsed st = (int (h_gasUsed (b_header (st_block st))) \<noteq> st_gasUsed st)"

definition invalid_stateRoot :: "state \<Rightarrow> bool" where
  "invalid_stateRoot st = (s_root st \<noteq> h_stateRoot (b_header (st_block st)))"

text \<open>One check: \<^verbatim>\<open>err = new Error((err || '') + fragment)\<close> when it fails.\<close>

definition append_error :: "bool \<Rightarrow> string \<Rightarrow> error option \<Rightarrow> error option" where
  "append_error failed fragment err =
     (if failed then Some (Error (errOrEmpty err @ fragment)) else err)"

definition validate :: "env \<Rightarrow> state \<Rightarrow> error option \<Rightarrow> error option" where
  "validate env st err =
     append_error (invalid_stateRoot st) ''invalid block stateRoot ''
       (append_error (invalid_gasUsed st) ''invalid gasUsed ''
         (append_error (invalid_bloom st) ''invalid bloom ''
           (append_error (invalid_receiptTrie env st) ''invalid receiptTrie '' err)))"

text \<open>\<^verbatim>\<open>self.stateManager.cache.flush\<close> and \<^verbatim>\<open>self.stateManager.cache.clear\<close>.\<close>

definition flush :: "env \<Rightarrow> state \<Rightarrow> state" where
  "flush env st = st\<lparr>s_root := cache_flush env (s_root st), s_trace := s_trace st @ [EvFlush]\<rparr>"

definition clear :: "state \<Rightarrow> state" where
  "clear st = st\<lparr>s_trace := s_trace st @ [EvClear]\<rparr>"

text \<open>
  Lines 56 to 58. The hook's own error comes behind the two arguments bound to \<^verbatim>\<open>cb\<close>
  (line 208) and is lost.
\<close>

definition afterBlock :: "env \<Rightarrow> block_result \<Rightarrow> state \<Rightarrow> state" where
  "afterBlock env res st =
     (case emit_afterBlock env res (s_root st) of
        (hook_err, root') \<Rightarrow>
          st\<lparr>s_root := root', s_trace := s_trace st @ [EvAfterBlock res]\<rparr>)"

text \<open>
  Lines 171 to 211. In generate mode the root goes into the header before the commit and the
  flush. The \<^verbatim>\<open>err\<close> that the checks append to is the one of the commit's callback.
\<close>

definition parseBlockResults :: "env \<Rightarrow> bool \<Rightarrow> failure option \<Rightarrow> state \<Rightarrow> run_result" where
  "parseBlockResults env generateStateRoot failed st =
     (case failed of
        Some f \<Rightarrow>
          (let st1 = revert st
           in Aborted f (st1\<lparr>s_trace := s_trace st1 @ [EvCallback (Some (failure_error f)) None]\<rparr>))
      | None \<Rightarrow>
          (let st1 = (if generateStateRoot
                      then st\<lparr>st_block := setHeaderStateRoot (st_block st) (s_root st)\<rparr>
                      else st);
               st2 = commit st1;
               err0 = trie_commit env (s_root st2);
               st3 = flush env st2;
               err = (if \<not> generateStateRoot then validate env st3 err0 else err0);
               st4 = clear st3;
               res = \<lparr>br_receipts = st_receipts st4, br_results = st_txResults st4,
                      br_error = err\<rparr>;
               st5 = afterBlock env res st4
           in Completed err res (st5\<lparr>s_trace := s_trace st5 @ [EvCallback err (Some res)]\<rparr>)))"

text \<open>Lines 28 to 37.\<close>

definition init_state :: "self \<Rightarrow> block \<Rightarrow> state" where
  "init_state vm blk =
     \<lparr>s_root = s_root vm, s_checkpoints = s_checkpoints vm, s_trace = s_trace vm,
      st_block = blk, st_gasUsed = 0, st_bloom = new_Bloom, st_receipts = [],
      st_txResults = [], st_receiptTrie = [], st_validReceiptCount = 0\<rparr>"

text \<open>Lines 39 to 41.\<close>

definition override_root :: "bytes option \<Rightarrow> state \<Rightarrow> state" where
  "override_root r st = (case r of None \<Rightarrow> st | Some v \<Rightarrow> st\<lparr>s_root := v\<rparr>)"

text \<open>The state in which \<^verbatim>\<open>async.series\<close> starts: the closure's variables set up, the root
  overridden when \<^verbatim>\<open>opts.root\<close> is given, the checkpoint opened.\<close>

definition start :: "opts \<Rightarrow> self \<Rightarrow> block \<Rightarrow> state" where
  "start os vm blk = checkpoint (override_root (o_root os) (init_state vm blk))"

text \<open>Lines 16 to 50.\<close>

definition runBlock :: "env \<Rightarrow> opts option \<Rightarrow> self \<Rightarrow> run_result" where
  "runBlock env opts vm =
     (case opts of
        None \<Rightarrow>
          (let e = Error ''invalid input, opts must be provided''
           in InvalidInput e (vm\<lparr>s_trace := s_trace vm @ [EvCallback (Some e) None]\<rparr>))
      | Some os \<Rightarrow>
          (case o_block os of
             None \<Rightarrow>
               (let e = Error ''invalid input, block must be provided''
                in InvalidInput e (vm\<lparr>s_trace := s_trace vm @ [EvCallback (Some e) None]\<rparr>))
           | Some blk \<Rightarrow>
               (case series env (o_generate os) (start os vm blk) of
                  (failed, st') \<Rightarrow> parseBlockResults env (o_generate os) failed st')))"

subsection \<open>Reading a run\<close>

text \<open>The transactions handed to \<^verbatim>\<open>runTx\<close>, in order.\<close>

fun executed :: "event list \<Rightarrow> tx list" where
  "executed [] = []"
| "executed (EvRunTx t # es) = t # executed es"
| "executed (e # es) = executed es"

text \<open>Whether a call is the \<^verbatim>\<open>afterBlock\<close> hook.\<close>

fun is_afterBlock :: "event \<Rightarrow> bool" where
  "is_afterBlock (EvAfterBlock r) = True"
| "is_afterBlock e = False"

text \<open>
  The receipts of a run of successful transactions, from their results: each carries the
  gas used up to and including its own transaction.
\<close>

fun receipts_of :: "int \<Rightarrow> tx_result list \<Rightarrow> receipt list" where
  "receipts_of gas [] = []"
| "receipts_of gas (r # rs) =
     txReceipt (gas + int (r_gasUsed r)) r # receipts_of (gas + int (r_gasUsed r)) rs"

text \<open>The tuple that is serialised for a receipt, and the trie entries of a list of receipts.\<close>

definition receipt_raw :: "receipt \<Rightarrow> rlp_item" where
  "receipt_raw rc =
     RList [RInt (rc_status rc), RBuf (rc_gasUsed rc), RBits (rc_bitvector rc),
            RList (rc_logs rc)]"

fun trie_entries :: "env \<Rightarrow> nat \<Rightarrow> receipt list \<Rightarrow> (bytes \<times> bytes) list" where
  "trie_entries env n [] = []"
| "trie_entries env n (rc # rcs) =
     (rlp_encode env (RInt n), rlp_encode env (receipt_raw rc)) # trie_entries env (Suc n) rcs"

text \<open>
  What a run of the transaction loop from \<open>st\<close> to \<open>st'\<close> looks like, when \<open>rs\<close> are
  the results of the transactions that succeeded and \<open>vs\<close> is what a failing executor
  passed as its result.
\<close>

definition tx_run ::
  "env \<Rightarrow> bool \<Rightarrow> state \<Rightarrow> tx list \<Rightarrow> failure option \<Rightarrow> state \<Rightarrow> tx_result list \<Rightarrow> js_val list \<Rightarrow> bool"
where
  "tx_run env g st txs res st' rs vs \<longleftrightarrow>
     st_gasUsed st' = st_gasUsed st + int (sum_list (map r_gasUsed rs)) \<and>
     st_bloom st' = foldl bloom_or (st_bloom st) (map r_bloom rs) \<and>
     st_validReceiptCount st' = st_validReceiptCount st + length rs \<and>
     st_receiptTrie st' = st_receiptTrie st @
       trie_entries env (st_validReceiptCount st) (receipts_of (st_gasUsed st) rs) \<and>
     s_checkpoints st' = s_checkpoints st \<and>
     st_block st' = (if g \<and> rs \<noteq> [] then setHeaderBloom (st_block st) (st_bloom st')
                     else st_block st) \<and>
     s_trace st' = s_trace st @ map EvRunTx (take (length rs + length vs) txs) \<and>
     st_receipts st' = st_receipts st @ map Some (receipts_of (st_gasUsed st) rs) @
       map (\<lambda>v. None) vs \<and>
     st_txResults st' = st_txResults st @ map ResultVal rs @ vs \<and>
     (\<forall>i<length rs. \<exists>blk root. fst (runTx env (txs ! i) blk root) = ExecOk (rs ! i)) \<and>
     (case res of
        None \<Rightarrow> length rs = length txs \<and> vs = []
      | Some GasLimitExceeded \<Rightarrow>
          length rs < length txs \<and> vs = [] \<and> gasLimitIsHigherThanBlock st' (txs ! length rs)
      | Some (ExecutorFailed e) \<Rightarrow>
          length rs < length txs \<and>
          (\<exists>v blk root. vs = [v] \<and> fst (runTx env (txs ! length rs) blk root) = ExecErr e v)
      | Some f \<Rightarrow> False)"

subsection \<open>A small world to run the function in\<close>

text \<open>
  Hooks that do nothing, an executor that fails on a transaction without data and otherwise
  uses all the gas of the transaction and reports a bloom and a new root made from its data,
  an encoding that tags and concatenates, a store with the one account \<open>[]\<close> whose balance is what the root's bytes spell, and five
  ether of miner reward.
\<close>

fun demo_rlp :: "rlp_item \<Rightarrow> bytes" where
  "demo_rlp (RInt n) = 0 # be_bytes n"
| "demo_rlp (RBuf b) = 1 # of_nat (length b) # b"
| "demo_rlp (RBits v) = 2 # be_bytes (unat v)"
| "demo_rlp (RList l) = 3 # of_nat (length l) # concat (map demo_rlp l)"

definition demo_env :: env where
  "demo_env =
     \<lparr>emit_beforeBlock = (\<lambda>b r. (None, r)),
      emit_afterBlock = (\<lambda>res r. (None, r)),
      runTx = (\<lambda>t b r.
        if tx_data t = [] then (ExecErr (Error ''out of gas'') Undefined, r)
        else (ExecOk \<lparr>r_gasUsed = tx_gasLimit t, r_bloom = of_nat (length (tx_data t)),
                       r_exception = 1, r_logs = None\<rparr>, r @ tx_data t)),
      getAccount = (\<lambda>a r. if a = [] then Inr \<lparr>a_nonce = 0, a_balance = be_nat r\<rparr>
                           else Inl (Error ''no account'')),
      putAccount = (\<lambda>a acc r. if a = [] then (None, be_bytes (a_balance acc))
                               else (Some (Error ''no account''), r)),
      trie_commit = (\<lambda>r. None),
      cache_flush = (\<lambda>r. r),
      rlp_encode = demo_rlp,
      receiptTrie_root = (\<lambda>ps. if ps = [] then None else Some (concat (map fst ps))),
      minerReward = 5000000000000000000\<rparr>"

definition demo_header :: header where
  "demo_header =
     \<lparr>h_gasLimit = 100, h_gasUsed = 0, h_stateRoot = [], h_receiptTrie = [], h_bloom = 0,
      h_coinbase = [], h_number = 10\<rparr>"

definition demo_tx :: "nat \<Rightarrow> bytes \<Rightarrow> tx" where
  "demo_tx gas d = \<lparr>tx_gasLimit = gas, tx_data = d\<rparr>"

definition demo_block :: "tx list \<Rightarrow> header list \<Rightarrow> block" where
  "demo_block txs ommers =
     \<lparr>b_header = demo_header, b_transactions = txs, b_uncleHeaders = ommers\<rparr>"

definition demo_opts :: "block \<Rightarrow> bool \<Rightarrow> bytes option \<Rightarrow> opts" where
  "demo_opts blk g r = \<lparr>o_block = Some blk, o_generate = g, o_root = r\<rparr>"

definition demo_vm :: self where
  "demo_vm = \<lparr>s_root = [0], s_checkpoints = [], s_trace = []\<rparr>"


fun final_trace :: "run_result \<Rightarrow> event list" where
  "final_trace (InvalidInput e s) = s_trace s"
| "final_trace (Aborted f st) = s_trace st"
| "final_trace (Completed err res st) = s_trace st"



text \<open>The variables of the closure at that moment, when the function got that far.\<close>

fun closure_of :: "run_result \<Rightarrow> state option" where
  "closure_of (InvalidInput e s) = None"
| "closure_of (Aborted f st) = Some st"
| "closure_of (Completed err res st) = Some st"

text \<open>The bit-vectors of the receipts that are not null.\<close>

fun receipt_blooms :: "receipt option list \<Rightarrow> bitvector list" where
  "receipt_blooms [] = []"
| "receipt_blooms (None # xs) = receipt_blooms xs"
| "receipt_blooms (Some rc # xs) = rc_bitvector rc # receipt_blooms xs"



definition demo_ommer :: "nat \<Rightarrow> address \<Rightarrow> header" where
  "demo_ommer n a = demo_header\<lparr>h_number := n, h_coinbase := a\<rparr>"

section \<open>Properties\<close>

subsection \<open>Lemmas\<close>

declare be_bytes.simps [simp del]




lemma be_bytes_nonempty: "be_bytes n \<noteq> []"
  by (subst be_bytes.simps) simp

text \<open>They are canonical: no leading zero byte, but for the number zero.\<close>

lemma be_bytes_no_leading_zero: "0 < n \<Longrightarrow> hd (be_bytes n) \<noteq> 0"
proof (induction n rule: be_bytes.induct)
  case (1 n)
  show ?case
  proof (cases "n < 256")
    case True
    have "unat (of_nat n :: 8 word) = n" using True by (simp add: unat_of_nat)
    then have "(of_nat n :: 8 word) \<noteq> 0" using 1(2) by auto
    with True show ?thesis
      by (subst be_bytes.simps) simp
  next
    case False
    then have "0 < n div 256" by (simp add: div_greater_zero_iff)
    with False 1 show ?thesis
      by (subst be_bytes.simps) (simp add: be_bytes_nonempty)
  qed
qed

lemma setHeaderBloom_twice [simp]: "setHeaderBloom (setHeaderBloom b x) y = setHeaderBloom b y"
  by (simp add: setHeaderBloom_def)

lemma receipt_raw_txReceipt: "receipt_raw (txReceipt gas r) = rawTxReceipt gas r"
  by (simp add: receipt_raw_def txReceipt_def rawTxReceipt_def)

text \<open>The three outcomes of one transaction.\<close>

lemma processTx_cases:
  obtains
    (rejected) "gasLimitIsHigherThanBlock st t" "processTx env g st t = Abort GasLimitExceeded st"
  | (failed) e v root' where "\<not> gasLimitIsHigherThanBlock st t"
      "runTx env t (st_block st) (s_root st) = (ExecErr e v, root')"
      "processTx env g st t = Abort (ExecutorFailed e)
         (st\<lparr>s_root := root', s_trace := s_trace st @ [EvRunTx t],
             st_txResults := st_txResults st @ [v],
             st_receipts := st_receipts st @ [None]\<rparr>)"
  | (ok) r root' where "\<not> gasLimitIsHigherThanBlock st t"
      "runTx env t (st_block st) (s_root st) = (ExecOk r, root')"
      "processTx env g st t = Next
         (st\<lparr>s_root := root', s_trace := s_trace st @ [EvRunTx t],
             st_txResults := st_txResults st @ [ResultVal r],
             st_gasUsed := st_gasUsed st + int (r_gasUsed r),
             st_bloom := bloom_or (st_bloom st) (r_bloom r),
             st_block := (if g then setHeaderBloom (st_block st) (bloom_or (st_bloom st) (r_bloom r))
                          else st_block st),
             st_receipts := st_receipts st @ [Some (txReceipt (st_gasUsed st + int (r_gasUsed r)) r)],
             st_receiptTrie := st_receiptTrie st @
               [(rlp_encode env (RInt (st_validReceiptCount st)),
                 rlp_encode env (rawTxReceipt (st_gasUsed st + int (r_gasUsed r)) r))],
             st_validReceiptCount := Suc (st_validReceiptCount st)\<rparr>)"
proof (cases "gasLimitIsHigherThanBlock st t")
  case True
  then show ?thesis using rejected by (simp add: processTx_def)
next
  case False
  obtain out root' where rt: "runTx env t (st_block st) (s_root st) = (out, root')"
    by (cases "runTx env t (st_block st) (s_root st)")
  show ?thesis
  proof (cases out)
    case (ExecOk r)
    with False rt show ?thesis
      by (intro ok[of r root']) (simp_all add: processTx_def parseTxResult_def Let_def)
  next
    case (ExecErr e v)
    with False rt show ?thesis
      by (intro failed[of e v root']) (simp_all add: processTx_def parseTxResult_def)
  qed
qed

lemma tx_run_Nil: "tx_run env g st [] None st [] []"
  by (simp add: tx_run_def)

lemma tx_run_rejected:
  "gasLimitIsHigherThanBlock st t \<Longrightarrow> tx_run env g st (t # ts) (Some GasLimitExceeded) st [] []"
  by (simp add: tx_run_def)

lemma tx_run_failed:
  assumes "runTx env t (st_block st) (s_root st) = (ExecErr e v, root')"
  shows "tx_run env g st (t # ts) (Some (ExecutorFailed e))
           (st\<lparr>s_root := root', s_trace := s_trace st @ [EvRunTx t],
               st_txResults := st_txResults st @ [v],
               st_receipts := st_receipts st @ [None]\<rparr>) [] [v]"
proof -
  have "fst (runTx env t (st_block st) (s_root st)) = ExecErr e v"
    using assms by simp
  then have "\<exists>blk root. fst (runTx env t blk root) = ExecErr e v"
    by blast
  then show ?thesis
    by (simp add: tx_run_def)
qed

lemma tx_run_ok:
  assumes ok: "runTx env t (st_block st) (s_root st) = (ExecOk r, root')"
    and st1: "st1 = st\<lparr>s_root := root', s_trace := s_trace st @ [EvRunTx t],
             st_txResults := st_txResults st @ [ResultVal r],
             st_gasUsed := st_gasUsed st + int (r_gasUsed r),
             st_bloom := bloom_or (st_bloom st) (r_bloom r),
             st_block := (if g then setHeaderBloom (st_block st) (bloom_or (st_bloom st) (r_bloom r))
                          else st_block st),
             st_receipts := st_receipts st @ [Some (txReceipt (st_gasUsed st + int (r_gasUsed r)) r)],
             st_receiptTrie := st_receiptTrie st @
               [(rlp_encode env (RInt (st_validReceiptCount st)),
                 rlp_encode env (rawTxReceipt (st_gasUsed st + int (r_gasUsed r)) r))],
             st_validReceiptCount := Suc (st_validReceiptCount st)\<rparr>"
    and run: "tx_run env g st1 ts res st' rs vs"
  shows "tx_run env g st (t # ts) res st' (r # rs) vs"
proof -
  have "fst (runTx env t (st_block st) (s_root st)) = ExecOk r"
    using ok by simp
  then have first: "\<exists>blk root. fst (runTx env t blk root) = ExecOk r"
    by blast
  have nth: "\<forall>i<Suc (length rs). \<exists>blk root. fst (runTx env ((t # ts) ! i) blk root) = ExecOk ((r # rs) ! i)"
    if "\<forall>i<length rs. \<exists>blk root. fst (runTx env (ts ! i) blk root) = ExecOk (rs ! i)"
    using that first by (auto simp: less_Suc_eq_0_disj)
  from run nth show ?thesis
    unfolding tx_run_def st1
    by (simp add: receipt_raw_txReceipt split: option.splits failure.splits)
qed

lemma processTransactions_run:
  "processTransactions env g st txs = (res, st') \<Longrightarrow> \<exists>rs vs. tx_run env g st txs res st' rs vs"
proof (induction txs arbitrary: st)
  case Nil
  then have "res = None" "st' = st" by simp_all
  then show ?case using tx_run_Nil by blast
next
  case (Cons t ts)
  show ?case
  proof (cases rule: processTx_cases[of st t env g])
    case rejected
    with Cons.prems have "res = Some GasLimitExceeded" "st' = st" by simp_all
    with rejected(1) show ?thesis using tx_run_rejected by blast
  next
    case (failed e v root')
    with Cons.prems have "res = Some (ExecutorFailed e)"
      "st' = st\<lparr>s_root := root', s_trace := s_trace st @ [EvRunTx t],
               st_txResults := st_txResults st @ [v],
               st_receipts := st_receipts st @ [None]\<rparr>" by simp_all
    with failed(2) show ?thesis using tx_run_failed by blast
  next
    case (ok r root')
    from ok(3) Cons.prems obtain rs vs where "tx_run env g
         (st\<lparr>s_root := root', s_trace := s_trace st @ [EvRunTx t],
             st_txResults := st_txResults st @ [ResultVal r],
             st_gasUsed := st_gasUsed st + int (r_gasUsed r),
             st_bloom := bloom_or (st_bloom st) (r_bloom r),
             st_block := (if g then setHeaderBloom (st_block st) (bloom_or (st_bloom st) (r_bloom r))
                          else st_block st),
             st_receipts := st_receipts st @ [Some (txReceipt (st_gasUsed st + int (r_gasUsed r)) r)],
             st_receiptTrie := st_receiptTrie st @
               [(rlp_encode env (RInt (st_validReceiptCount st)),
                 rlp_encode env (rawTxReceipt (st_gasUsed st + int (r_gasUsed r)) r))],
             st_validReceiptCount := Suc (st_validReceiptCount st)\<rparr>) ts res st' rs vs"
      using Cons.IH by force
    then have "tx_run env g st (t # ts) res st' (r # rs) vs"
      by (rule tx_run_ok[OF ok(2) refl])
    then show ?thesis by blast
  qed
qed

lemma processTransactions_append:
  "processTransactions env g st (xs @ ys) =
     (case processTransactions env g st xs of
        (None, st1) \<Rightarrow> processTransactions env g st1 ys
      | (Some f, st1) \<Rightarrow> (Some f, st1))"
  by (induction xs arbitrary: st) (simp_all split: step.splits)

lemma beforeBlock_eq:
  assumes "beforeBlock env st = (res, st')"
  shows "st' = st\<lparr>s_root := s_root st', s_trace := s_trace st @ [EvBeforeBlock (st_block st)]\<rparr>"
    and "res = None \<or> (\<exists>e. res = Some (BeforeBlockFailed e))"
    and "fst (emit_beforeBlock env (st_block st) (s_root st)) = map_option failure_error res"
  using assms
  by (auto simp: beforeBlock_def option.map_comp comp_def option.map_ident split: prod.splits)

lemma rewardAccount_eq:
  assumes "rewardAccount env a x st = (res, st')"
  shows "st' = st\<lparr>s_root := s_root st'\<rparr>" and "res = None \<or> (\<exists>e. res = Some (RewardFailed e))"
  using assms by (auto simp: rewardAccount_def split: sum.splits prod.splits option.splits)

lemma rewardOmmers_eq:
  assumes "rewardOmmers env st os = (res, st')"
  shows "st' = st\<lparr>s_root := s_root st'\<rparr> \<and> (res = None \<or> (\<exists>e. res = Some (RewardFailed e)))"
  using assms
proof (induction os arbitrary: st)
  case Nil
  then show ?case by simp
next
  case (Cons ommer rest)
  obtain r1 st1 where ra: "rewardAccount env (h_coinbase ommer)
      (ommerReward (minerReward env) (h_number (b_header (st_block st))) (h_number ommer)) st = (r1, st1)"
    by (cases "rewardAccount env (h_coinbase ommer)
      (ommerReward (minerReward env) (h_number (b_header (st_block st))) (h_number ommer)) st")
  note e1 = rewardAccount_eq[OF ra]
  show ?case
  proof (cases r1)
    case None
    with Cons.prems ra have "rewardOmmers env st1 rest = (res, st')" by simp
    from Cons.IH[OF this] e1(1) show ?thesis
      by (metis (no_types, lifting) self.surjective self.update_convs(1) state.surjective state.update_convs(1) self.select_convs(1))
  next
    case (Some f)
    with Cons.prems ra have "res = Some f" "st' = st1" by simp_all
    with e1 Some show ?thesis by auto
  qed
qed

lemma rewardMiner_eq:
  assumes "rewardMiner env st = (res, st')"
  shows "st' = st\<lparr>s_root := s_root st'\<rparr> \<and> (res = None \<or> (\<exists>e. res = Some (RewardFailed e)))"
  using assms rewardAccount_eq unfolding rewardMiner_def by blast

lemma payOmmersAndMiner_eq:
  assumes "payOmmersAndMiner env st = (res, st')"
  shows "st' = st\<lparr>s_root := s_root st'\<rparr> \<and> (res = None \<or> (\<exists>e. res = Some (RewardFailed e)))"
proof -
  obtain r1 st1 where ro: "rewardOmmers env st (b_uncleHeaders (st_block st)) = (r1, st1)"
    by (cases "rewardOmmers env st (b_uncleHeaders (st_block st))")
  note e1 = rewardOmmers_eq[OF ro]
  show ?thesis
  proof (cases r1)
    case None
    with assms ro have rm: "rewardMiner env st1 = (res, st')"
      by (simp add: payOmmersAndMiner_def)
    from rewardMiner_eq[OF rm] e1 show ?thesis
      by (metis (no_types, lifting) self.surjective self.update_convs(1) state.surjective state.update_convs(1) self.select_convs(1))
  next
    case (Some f)
    with assms ro have "res = Some f" "st' = st1"
      by (simp_all add: payOmmersAndMiner_def)
    with e1 Some show ?thesis by auto
  qed
qed

text \<open>The four ways the series ends.\<close>

lemma series_cases:
  obtains
    (hook) e st1 where
      "beforeBlock env st = (Some (BeforeBlockFailed e), st1)"
      "series env g st = (Some (BeforeBlockFailed e), st1)"
  | (txfail) f st1 st2 where
      "beforeBlock env st = (None, st1)"
      "processTransactions env g st1 (b_transactions (st_block st1)) = (Some f, st2)"
      "series env g st = (Some f, st2)"
  | (reward) e st1 st2 st3 where
      "beforeBlock env st = (None, st1)"
      "processTransactions env g st1 (b_transactions (st_block st1)) = (None, st2)"
      "payOmmersAndMiner env st2 = (Some (RewardFailed e), st3)"
      "series env g st = (Some (RewardFailed e), st3)"
  | (finished) st1 st2 st3 where
      "beforeBlock env st = (None, st1)"
      "processTransactions env g st1 (b_transactions (st_block st1)) = (None, st2)"
      "payOmmersAndMiner env st2 = (None, st3)"
      "series env g st = (None, st3)"
proof -
  obtain r1 st1 where bb: "beforeBlock env st = (r1, st1)"
    by (cases "beforeBlock env st")
  show ?thesis
  proof (cases r1)
    case (Some f)
    with beforeBlock_eq(2)[OF bb] obtain e where "f = BeforeBlockFailed e" by auto
    with Some bb show ?thesis
      by (intro hook[of e st1]) (simp_all add: series_def)
  next
    case None
    obtain r2 st2 where pt: "processTransactions env g st1 (b_transactions (st_block st1)) = (r2, st2)"
      by (cases "processTransactions env g st1 (b_transactions (st_block st1))")
    show ?thesis
    proof (cases r2)
      case (Some f)
      with None bb pt show ?thesis
        by (intro txfail[of st1 f st2]) (simp_all add: series_def)
    next
      case r2: None
      obtain r3 st3 where pay: "payOmmersAndMiner env st2 = (r3, st3)"
        by (cases "payOmmersAndMiner env st2")
      show ?thesis
      proof (cases r3)
        case (Some f)
        with payOmmersAndMiner_eq[OF pay] obtain e where "f = RewardFailed e" by auto
        with Some None r2 bb pt pay show ?thesis
          by (intro reward[of st1 st2 e st3]) (simp_all add: series_def)
      next
        case r3: None
        with None r2 bb pt pay show ?thesis
          by (intro finished[of st1 st2 st3]) (simp_all add: series_def)
      qed
    qed
  qed
qed

lemma start_simps [simp]:
  "s_root (start os vm blk) = (case o_root os of None \<Rightarrow> s_root vm | Some r \<Rightarrow> r)"
  "s_checkpoints (start os vm blk) =
     (case o_root os of None \<Rightarrow> s_root vm | Some r \<Rightarrow> r) # s_checkpoints vm"
  "s_trace (start os vm blk) = s_trace vm @ [EvCheckpoint]"
  "st_block (start os vm blk) = blk"
  "st_gasUsed (start os vm blk) = 0"
  "st_bloom (start os vm blk) = new_Bloom"
  "st_receipts (start os vm blk) = []"
  "st_txResults (start os vm blk) = []"
  "st_receiptTrie (start os vm blk) = []"
  "st_validReceiptCount (start os vm blk) = 0"
  by (simp_all add: start_def checkpoint_def override_root_def init_state_def split: option.splits)

lemma runBlock_Some:
  "o_block os = Some blk \<Longrightarrow>
   runBlock env (Some os) vm =
     parseBlockResults env (o_generate os) (fst (series env (o_generate os) (start os vm blk)))
       (snd (series env (o_generate os) (start os vm blk)))"
  by (simp add: runBlock_def split: prod.splits)

lemma parseBlockResults_Some:
  "parseBlockResults env g (Some f) st =
     Aborted f ((revert st)\<lparr>s_trace := s_trace (revert st) @ [EvCallback (Some (failure_error f)) None]\<rparr>)"
  by (simp add: parseBlockResults_def Let_def)

lemma revert_simps [simp]:
  "s_checkpoints st = r # cs \<Longrightarrow> s_root (revert st) = r"
  "s_checkpoints st = r # cs \<Longrightarrow> s_checkpoints (revert st) = cs"
  "s_trace (revert st) = s_trace st @ [EvRevert]"
  "st_block (revert st) = st_block st"
  "st_gasUsed (revert st) = st_gasUsed st"
  "st_bloom (revert st) = st_bloom st"
  "st_receipts (revert st) = st_receipts st"
  "st_txResults (revert st) = st_txResults st"
  "st_receiptTrie (revert st) = st_receiptTrie st"
  "st_validReceiptCount (revert st) = st_validReceiptCount st"
  by (simp_all add: revert_def split: list.splits)

lemmas run_defs =
  runBlock_def start_def checkpoint_def override_root_def init_state_def series_def
  beforeBlock_def processTx_def parseTxResult_def gasLimitIsHigherThanBlock_def
  payOmmersAndMiner_def rewardMiner_def rewardAccount_def ommerReward_def minerTotalReward_def
  parseBlockResults_def revert_def commit_def flush_def clear_def afterBlock_def validate_def
  append_error_def invalid_receiptTrie_def invalid_bloom_def invalid_gasUsed_def
  invalid_stateRoot_def errOrEmpty_def setHeaderBloom_def setHeaderStateRoot_def
  bloom_or_def new_Bloom_def txReceipt_def rawTxReceipt_def receipt_status_def txLogs_def
  toArrayLike_def Let_def

lemmas demo_defs =
  demo_env_def demo_header_def demo_tx_def demo_block_def demo_opts_def demo_vm_def
  demo_ommer_def

lemma root_frame:
  assumes "st' = st\<lparr>s_root := r\<rparr>"
  shows "s_checkpoints st' = s_checkpoints st" "s_trace st' = s_trace st"
    "st_block st' = st_block st" "st_gasUsed st' = st_gasUsed st" "st_bloom st' = st_bloom st"
    "st_receipts st' = st_receipts st" "st_txResults st' = st_txResults st"
    "st_receiptTrie st' = st_receiptTrie st"
    "st_validReceiptCount st' = st_validReceiptCount st"
  using assms by simp_all

lemma root_trace_frame:
  assumes "st' = st\<lparr>s_root := r, s_trace := t\<rparr>"
  shows "s_checkpoints st' = s_checkpoints st" "s_trace st' = t"
    "st_block st' = st_block st" "st_gasUsed st' = st_gasUsed st" "st_bloom st' = st_bloom st"
    "st_receipts st' = st_receipts st" "st_txResults st' = st_txResults st"
    "st_receiptTrie st' = st_receiptTrie st"
    "st_validReceiptCount st' = st_validReceiptCount st"
  using assms by simp_all

lemmas beforeBlock_frame = root_trace_frame [OF beforeBlock_eq(1)]

lemmas payOmmersAndMiner_frame = root_frame [OF payOmmersAndMiner_eq [THEN conjunct1]]

lemma series_checkpoints:
  assumes "series env g st = (res, st')"
  shows "s_checkpoints st' = s_checkpoints st"
proof (cases rule: series_cases[of env st g])
  case (hook e st1)
  with assms beforeBlock_frame(1)[OF hook(1)] show ?thesis by simp
next
  case (txfail f st1 st2)
  from processTransactions_run[OF txfail(2)] have "s_checkpoints st2 = s_checkpoints st1"
    by (auto simp: tx_run_def)
  with assms txfail beforeBlock_frame(1)[OF txfail(1)] show ?thesis by simp
next
  case (reward e st1 st2 st3)
  from processTransactions_run[OF reward(2)] have "s_checkpoints st2 = s_checkpoints st1"
    by (auto simp: tx_run_def)
  with assms reward beforeBlock_frame(1)[OF reward(1)] payOmmersAndMiner_frame(1)[OF reward(3)]
  show ?thesis by simp
next
  case (finished st1 st2 st3)
  from processTransactions_run[OF finished(2)] have "s_checkpoints st2 = s_checkpoints st1"
    by (auto simp: tx_run_def)
  with assms finished beforeBlock_frame(1)[OF finished(1)]
    payOmmersAndMiner_frame(1)[OF finished(3)]
  show ?thesis by simp
qed


lemma filter_afterBlock_RunTx [simp]: "filter is_afterBlock (map EvRunTx ts) = []"
  by (induction ts) simp_all

lemma revert_start:
  assumes "s_checkpoints st = r # cs"
  shows "revert st = st\<lparr>s_root := r, s_checkpoints := cs, s_trace := s_trace st @ [EvRevert]\<rparr>"
  using assms by (simp add: revert_def)

lemma runBlock_aborted:
  assumes "o_block os = Some blk"
    and "series env (o_generate os) (start os vm blk) = (Some f, st1)"
  shows "runBlock env (Some os) vm =
           Aborted f
             (st1\<lparr>s_root := (case o_root os of None \<Rightarrow> s_root vm | Some r \<Rightarrow> r),
                  s_checkpoints := s_checkpoints vm,
                  s_trace := s_trace st1 @
                    [EvRevert, EvCallback (Some (failure_error f)) None]\<rparr>)"
proof -
  have "s_checkpoints st1 =
      (case o_root os of None \<Rightarrow> s_root vm | Some r \<Rightarrow> r) # s_checkpoints vm"
    using series_checkpoints[OF assms(2)] by simp
  from revert_start[OF this] assms show ?thesis
    by (simp add: runBlock_Some parseBlockResults_Some)
qed

lemma afterBlock_eq:
  "afterBlock env res st =
     st\<lparr>s_root := snd (emit_afterBlock env res (s_root st)),
        s_trace := s_trace st @ [EvAfterBlock res]\<rparr>"
  by (simp add: afterBlock_def split: prod.splits)

lemma parseBlockResults_None:
  obtains err res st' where
    "parseBlockResults env g None st = Completed err res st'"
    "br_error res = err" "br_receipts res = st_receipts st" "br_results res = st_txResults st"
    "s_trace st' = s_trace st @ [EvCommit, EvFlush, EvClear, EvAfterBlock res, EvCallback err (Some res)]"
    "s_checkpoints st' = tl (s_checkpoints st)"
    "s_root st' = snd (emit_afterBlock env res (cache_flush env (s_root st)))"
    "st_block st' = (if g then setHeaderStateRoot (st_block st) (s_root st) else st_block st)"
    "st_gasUsed st' = st_gasUsed st" "st_bloom st' = st_bloom st"
    "st_receipts st' = st_receipts st" "st_txResults st' = st_txResults st"
    "st_receiptTrie st' = st_receiptTrie st"
    "st_validReceiptCount st' = st_validReceiptCount st"
proof (rule that)
  show "parseBlockResults env g None st =
      Completed
        (if \<not> g then validate env (flush env (commit st)) (trie_commit env (s_root st))
         else trie_commit env (s_root st))
        \<lparr>br_receipts = st_receipts st, br_results = st_txResults st,
         br_error = (if \<not> g then validate env (flush env (commit st)) (trie_commit env (s_root st))
           else trie_commit env (s_root st))\<rparr>
        ((afterBlock env
           \<lparr>br_receipts = st_receipts st, br_results = st_txResults st,
            br_error = (if \<not> g then validate env (flush env (commit st)) (trie_commit env (s_root st))
              else trie_commit env (s_root st))\<rparr>
           (clear (flush env (commit
             (if g then st\<lparr>st_block := setHeaderStateRoot (st_block st) (s_root st)\<rparr> else st)))))
         \<lparr>s_trace := s_trace (afterBlock env
           \<lparr>br_receipts = st_receipts st, br_results = st_txResults st,
            br_error = (if \<not> g then validate env (flush env (commit st)) (trie_commit env (s_root st))
              else trie_commit env (s_root st))\<rparr>
           (clear (flush env (commit
             (if g then st\<lparr>st_block := setHeaderStateRoot (st_block st) (s_root st)\<rparr> else st))))) @
           [EvCallback (if \<not> g then validate env (flush env (commit st)) (trie_commit env (s_root st))
              else trie_commit env (s_root st))
              (Some \<lparr>br_receipts = st_receipts st, br_results = st_txResults st,
            br_error = (if \<not> g then validate env (flush env (commit st)) (trie_commit env (s_root st))
              else trie_commit env (s_root st))\<rparr>)]\<rparr>)"
    by (simp add: parseBlockResults_def Let_def commit_def flush_def clear_def)
qed (simp_all add: afterBlock_eq commit_def flush_def clear_def)

lemma errOrEmpty_Some_append [simp]:
  "errOrEmpty (Some (Error (m @ c # cs))) = ''Error: '' @ m @ c # cs"
  by (simp add: errOrEmpty_def)


lemma processTransactions_snoc:
  "processTransactions env g st (xs @ [t]) =
     (case processTransactions env g st xs of
        (None, st1) \<Rightarrow> (case processTx env g st1 t of
                          Abort f s \<Rightarrow> (Some f, s) | Next s \<Rightarrow> (None, s))
      | (Some f, st1) \<Rightarrow> (Some f, st1))"
  by (simp add: processTransactions_append split: prod.splits option.splits step.splits)

lemma processTx_rejected_iff:
  "(case processTx env g st t of Abort f s \<Rightarrow> f = GasLimitExceeded | Next s \<Rightarrow> False) \<longleftrightarrow>
     int (h_gasLimit (b_header (st_block st))) < int (tx_gasLimit t) + st_gasUsed st"
  by (rule processTx_cases[of st t env g])
     (auto simp: gasLimitIsHigherThanBlock_def)

lemma tx_run_gasLimit:
  "tx_run env g st txs res st' rs vs \<Longrightarrow>
   h_gasLimit (b_header (st_block st')) = h_gasLimit (b_header (st_block st))"
  by (auto simp: tx_run_def setHeaderBloom_def split: if_splits)

lemma processTx_Next_gas:
  assumes "processTx env g st t = Next st'"
  shows "\<exists>r. st_gasUsed st' = st_gasUsed st + int (r_gasUsed r) \<and>
             st_txResults st' = st_txResults st @ [ResultVal r]"
  by (rule processTx_cases[of st t env g]) (use assms in auto)

lemma runBlock_Aborted_D:
  assumes "o_block os = Some blk" and "runBlock env (Some os) vm = Aborted f st'"
  obtains st1 where "series env (o_generate os) (start os vm blk) = (Some f, st1)"
    "st' = st1\<lparr>s_root := (case o_root os of None \<Rightarrow> s_root vm | Some r \<Rightarrow> r),
                s_checkpoints := s_checkpoints vm,
                s_trace := s_trace st1 @ [EvRevert, EvCallback (Some (failure_error f)) None]\<rparr>"
proof -
  obtain r st1 where ser: "series env (o_generate os) (start os vm blk) = (r, st1)"
    by (cases "series env (o_generate os) (start os vm blk)")
  show ?thesis
  proof (cases r)
    case None
    obtain err res st2 where "parseBlockResults env (o_generate os) None st1 = Completed err res st2"
      by (rule parseBlockResults_None[of env "o_generate os" st1])
    with assms ser None show ?thesis by (simp add: runBlock_Some)
  next
    case (Some f')
    from runBlock_aborted[OF assms(1) ser[unfolded Some]] assms(2) ser Some
    show ?thesis by (intro that[of st1]) simp_all
  qed
qed

lemma runBlock_tx_abort:
  assumes "o_block os = Some blk" and "runBlock env (Some os) vm = Aborted f st'"
    and "f = GasLimitExceeded \<or> (\<exists>e. f = ExecutorFailed e)"
  obtains sta st1 rs vs where
    "beforeBlock env (start os vm blk) = (None, sta)"
    "tx_run env (o_generate os) sta (b_transactions blk) (Some f) st1 rs vs"
    "st' = st1\<lparr>s_root := (case o_root os of None \<Rightarrow> s_root vm | Some r \<Rightarrow> r),
                s_checkpoints := s_checkpoints vm,
                s_trace := s_trace st1 @ [EvRevert, EvCallback (Some (failure_error f)) None]\<rparr>"
proof -
  from runBlock_Aborted_D[OF assms(1,2)] obtain st1 where
    ser: "series env (o_generate os) (start os vm blk) = (Some f, st1)" and
    st': "st' = st1\<lparr>s_root := (case o_root os of None \<Rightarrow> s_root vm | Some r \<Rightarrow> r),
                s_checkpoints := s_checkpoints vm,
                s_trace := s_trace st1 @ [EvRevert, EvCallback (Some (failure_error f)) None]\<rparr>"
    by blast
  show ?thesis
  proof (cases rule: series_cases[of env "start os vm blk" "o_generate os"])
    case (hook e sta)
    with ser assms(3) show ?thesis by auto
  next
    case (txfail f' sta st2)
    with ser have eq: "f' = f" "st2 = st1" by simp_all
    have "st_block sta = blk" using beforeBlock_frame(3)[OF txfail(1)] by simp
    with txfail(2) eq processTransactions_run obtain rs vs where
      "tx_run env (o_generate os) sta (b_transactions blk) (Some f) st1 rs vs"
      by metis
    with txfail(1) st' show ?thesis by (intro that[of sta st1 rs vs])
  next
    case (reward e sta st2 st3)
    with ser assms(3) show ?thesis by auto
  next
    case (finished sta st2 st3)
    with ser show ?thesis by simp
  qed
qed

lemma length_receipts_of [simp]: "length (receipts_of gas rs) = length rs"
  by (induction rs arbitrary: gas) simp_all


lemma trie_entries_length [simp]: "length (trie_entries env n rcs) = length rcs"
  by (induction rcs arbitrary: n) simp_all


lemma toArrayLike_int [simp]: "toArrayLike (int n) = be_bytes n"
  by (simp add: toArrayLike_def)

lemma receipt_blooms_nulls [simp]: "receipt_blooms (map (\<lambda>v. None) vs) = []"
  by (induction vs) simp_all

lemma receipt_blooms_receipts_of [simp]:
  "receipt_blooms (map Some (receipts_of gas rs) @ xs) = map r_bloom rs @ receipt_blooms xs"
  by (induction rs arbitrary: gas) (simp_all add: txReceipt_def)

lemma tx_run_blooms:
  assumes "tx_run env g st txs res st' rs vs" and "st_receipts st = []"
  shows "receipt_blooms (st_receipts st') = map r_bloom rs"
  using assms by (simp add: tx_run_def)

lemma series_blooms:
  assumes "series env g st = (res, st')" and "st_receipts st = []"
  shows "st_bloom st' = foldl bloom_or (st_bloom st) (receipt_blooms (st_receipts st')) \<and>
         st_block st' =
           (if g \<and> receipt_blooms (st_receipts st') \<noteq> []
            then setHeaderBloom (st_block st) (st_bloom st') else st_block st)"
proof (cases rule: series_cases[of env st g])
  case (hook e st1)
  with assms beforeBlock_frame[OF hook(1)] show ?thesis by simp
next
  case (txfail f st1 st2)
  note fr = beforeBlock_frame[OF txfail(1)]
  from processTransactions_run[OF txfail(2)] obtain rs vs where
    run: "tx_run env g st1 (b_transactions (st_block st1)) (Some f) st2 rs vs" by blast
  from tx_run_blooms[OF run] fr assms(2) have "receipt_blooms (st_receipts st2) = map r_bloom rs"
    by simp
  with run fr txfail(3) assms(1) show ?thesis by (simp add: tx_run_def)
next
  case (reward e st1 st2 st3)
  note fr = beforeBlock_frame[OF reward(1)]
  note pf = payOmmersAndMiner_frame[OF reward(3)]
  from processTransactions_run[OF reward(2)] obtain rs vs where
    run: "tx_run env g st1 (b_transactions (st_block st1)) None st2 rs vs" by blast
  from tx_run_blooms[OF run] fr assms(2) have "receipt_blooms (st_receipts st2) = map r_bloom rs"
    by simp
  with run fr pf reward(4) assms(1) show ?thesis by (simp add: tx_run_def)
next
  case (finished st1 st2 st3)
  note fr = beforeBlock_frame[OF finished(1)]
  note pf = payOmmersAndMiner_frame[OF finished(3)]
  from processTransactions_run[OF finished(2)] obtain rs vs where
    run: "tx_run env g st1 (b_transactions (st_block st1)) None st2 rs vs" by blast
  from tx_run_blooms[OF run] fr assms(2) have "receipt_blooms (st_receipts st2) = map r_bloom rs"
    by simp
  with run fr pf finished(4) assms(1) show ?thesis by (simp add: tx_run_def)
qed

lemma processTx_generate_bloom:
  assumes "processTx env True st t = Next st1"
  shows "h_bloom (b_header (st_block st1)) = st_bloom st1"
  by (rule processTx_cases[of st t env True]) (use assms in \<open>auto simp: setHeaderBloom_def\<close>)










section \<open>The claims\<close>

subsection \<open>Failure reverts the checkpoint\<close>




subsection \<open>The receipts\<close>




subsection \<open>Gas accounting\<close>

text \<open>
  C3. The accumulator is zero when the loop starts. When the first \<open>i\<close> transactions of
  the block have been processed, it is the sum of the gas their results reported. Transaction
  \<open>i\<close> is then rejected with the gas limit error exactly when the gas limit of the block's
  header is less than its own gas limit plus that sum; and when it is processed instead, the
  accumulator grows by the gas its result reports. Over any run of the loop, however it ends,
  the accumulator does not decrease.
\<close>

theorem gas_accounting:
  assumes "beforeBlock env (start os vm blk) = (None, st)"
    and "i < length (b_transactions blk)"
    and "processTransactions env g st (take i (b_transactions blk)) = (None, sti)"
  shows "st_gasUsed st = 0 \<and>
         (\<exists>rs. length rs = i \<and> st_txResults sti = map ResultVal rs \<and>
               st_gasUsed sti = int (sum_list (map r_gasUsed rs))) \<and>
         (fst (processTransactions env g st (take (Suc i) (b_transactions blk))) =
              Some GasLimitExceeded \<longleftrightarrow>
            int (h_gasLimit (b_header blk)) <
              int (tx_gasLimit (b_transactions blk ! i)) + st_gasUsed sti) \<and>
         (\<forall>s. processTransactions env g st (take (Suc i) (b_transactions blk)) = (None, s) \<longrightarrow>
              st_gasUsed sti \<le> st_gasUsed s \<and>
              (\<exists>r. st_txResults s = st_txResults sti @ [ResultVal r] \<and>
                   st_gasUsed s = st_gasUsed sti + int (r_gasUsed r))) \<and>
         (\<forall>s txs r s'. processTransactions env g s txs = (r, s') \<longrightarrow>
              st_gasUsed s \<le> st_gasUsed s')"
proof -
  note fr = beforeBlock_frame[OF assms(1)]
  have zero: "st_gasUsed st = 0" and nores: "st_txResults st = []" and blk: "st_block st = blk"
    using fr by simp_all
  from processTransactions_run[OF assms(3)] obtain rs vs where
    run: "tx_run env g st (take i (b_transactions blk)) None sti rs vs"
    by blast
  have len: "length rs = i" and
    res: "st_txResults sti = map ResultVal rs" and
    gas: "st_gasUsed sti = int (sum_list (map r_gasUsed rs))"
    using run assms(2) zero nores by (auto simp: tx_run_def)
  have lim: "h_gasLimit (b_header (st_block sti)) = h_gasLimit (b_header blk)"
    using tx_run_gasLimit[OF run] blk by simp
  have snoc: "processTransactions env g st (take (Suc i) (b_transactions blk)) =
      (case processTx env g sti (b_transactions blk ! i) of
         Abort f s \<Rightarrow> (Some f, s) | Next s \<Rightarrow> (None, s))"
    using assms(2,3) by (simp add: take_Suc_conv_app_nth processTransactions_snoc)
  have rej: "fst (processTransactions env g st (take (Suc i) (b_transactions blk))) =
        Some GasLimitExceeded \<longleftrightarrow>
      int (h_gasLimit (b_header blk)) <
        int (tx_gasLimit (b_transactions blk ! i)) + st_gasUsed sti"
    using processTx_rejected_iff[of env g sti "b_transactions blk ! i"] lim
    by (simp add: snoc split: step.splits)
  have grow: "st_gasUsed sti \<le> st_gasUsed s \<and>
        (\<exists>r. st_txResults s = st_txResults sti @ [ResultVal r] \<and>
             st_gasUsed s = st_gasUsed sti + int (r_gasUsed r))"
    if "processTransactions env g st (take (Suc i) (b_transactions blk)) = (None, s)" for s
  proof -
    from that have "processTx env g sti (b_transactions blk ! i) = Next s"
      by (simp add: snoc split: step.splits)
    from processTx_Next_gas[OF this] show ?thesis by auto
  qed
  have mono: "st_gasUsed s \<le> st_gasUsed s'"
    if "processTransactions env g s txs = (r, s')" for s txs r s'
  proof -
    from processTransactions_run[OF that] obtain rs vs where
      "tx_run env g s txs r s' rs vs" by blast
    then show ?thesis by (simp add: tx_run_def)
  qed
  from zero len res gas rej grow mono show ?thesis by blast
qed

theorem gas_accounting_witness:
  "beforeBlock demo_env
     (start (demo_opts (demo_block [demo_tx 60 [1], demo_tx 50 [2]] []) False None) demo_vm
        (demo_block [demo_tx 60 [1], demo_tx 50 [2]] [])) =
     (None, snd (beforeBlock demo_env
       (start (demo_opts (demo_block [demo_tx 60 [1], demo_tx 50 [2]] []) False None) demo_vm
          (demo_block [demo_tx 60 [1], demo_tx 50 [2]] [])))) \<and>
   Suc 0 < length (b_transactions (demo_block [demo_tx 60 [1], demo_tx 50 [2]] [])) \<and>
   fst (processTransactions demo_env False
     (snd (beforeBlock demo_env
       (start (demo_opts (demo_block [demo_tx 60 [1], demo_tx 50 [2]] []) False None) demo_vm
          (demo_block [demo_tx 60 [1], demo_tx 50 [2]] []))))
     (take (Suc 0) (b_transactions (demo_block [demo_tx 60 [1], demo_tx 50 [2]] [])))) = None \<and>
   st_gasUsed (snd (processTransactions demo_env False
     (snd (beforeBlock demo_env
       (start (demo_opts (demo_block [demo_tx 60 [1], demo_tx 50 [2]] []) False None) demo_vm
          (demo_block [demo_tx 60 [1], demo_tx 50 [2]] []))))
     (take (Suc 0) (b_transactions (demo_block [demo_tx 60 [1], demo_tx 50 [2]] []))))) = 60 \<and>
   fst (processTransactions demo_env False
     (snd (beforeBlock demo_env
       (start (demo_opts (demo_block [demo_tx 60 [1], demo_tx 50 [2]] []) False None) demo_vm
          (demo_block [demo_tx 60 [1], demo_tx 50 [2]] []))))
     (take (Suc (Suc 0)) (b_transactions (demo_block [demo_tx 60 [1], demo_tx 50 [2]] [])))) =
     Some GasLimitExceeded"
  using gas_accounting
    [where env = demo_env
       and os = "demo_opts (demo_block [demo_tx 60 [1], demo_tx 50 [2]] []) False None"
       and vm = demo_vm
       and blk = "demo_block [demo_tx 60 [1], demo_tx 50 [2]] []"
       and st = "snd (beforeBlock demo_env
         (start (demo_opts (demo_block [demo_tx 60 [1], demo_tx 50 [2]] []) False None) demo_vm
            (demo_block [demo_tx 60 [1], demo_tx 50 [2]] [])))"
       and i = "Suc 0" and g = False
       and sti = "snd (processTransactions demo_env False
         (snd (beforeBlock demo_env
           (start (demo_opts (demo_block [demo_tx 60 [1], demo_tx 50 [2]] []) False None) demo_vm
              (demo_block [demo_tx 60 [1], demo_tx 50 [2]] []))))
         (take (Suc 0) (b_transactions (demo_block [demo_tx 60 [1], demo_tx 50 [2]] []))))"]
  by (simp add: run_defs demo_defs)

subsection \<open>Rewards\<close>




subsection \<open>Validation\<close>



subsection \<open>Executor failure\<close>

text \<open>
  C6, amended. When the run ends because the executor fails on transaction \<open>k\<close>, after
  \<open>k\<close> successful transactions, the receipts hold the \<open>k\<close> receipts of these and then one
  null, and the results hold their \<open>k\<close> results and then one more entry: the value the
  executor passed as its result next to the error (which is not the error; it is undefined
  when the executor passed nothing). Both are in the order of the transactions, the executor
  was called for transactions \<open>0\<close> to \<open>k\<close> and for no other, and the callback gets the
  executor's error and no result object, so neither sequence is handed to the caller.
\<close>

theorem executor_failure_appends_null_receipt:
  assumes "o_block os = Some blk"
    and "runBlock env (Some os) vm = Aborted (ExecutorFailed e) st'"
  shows "\<exists>k rs v. k < length (b_transactions blk) \<and> length rs = k \<and>
           length (st_receipts st') = k + 1 \<and> length (st_txResults st') = k + 1 \<and>
           st_receipts st' = map Some (receipts_of 0 rs) @ [None] \<and>
           st_txResults st' = map ResultVal rs @ [v] \<and>
           (\<forall>i<k. \<exists>b root. fst (runTx env (b_transactions blk ! i) b root) = ExecOk (rs ! i)) \<and>
           (\<exists>b root. fst (runTx env (b_transactions blk ! k) b root) = ExecErr e v) \<and>
           s_trace st' = s_trace vm @ EvCheckpoint # EvBeforeBlock blk #
             map EvRunTx (take (k + 1) (b_transactions blk)) @
             [EvRevert, EvCallback (Some e) None] \<and>
           callback_args (runBlock env (Some os) vm) = (Some e, None)"
proof -
  from runBlock_tx_abort[OF assms] obtain sta st1 rs vs where
    bb: "beforeBlock env (start os vm blk) = (None, sta)" and
    run: "tx_run env (o_generate os) sta (b_transactions blk) (Some (ExecutorFailed e)) st1 rs vs" and
    st': "st' = st1\<lparr>s_root := (case o_root os of None \<Rightarrow> s_root vm | Some r \<Rightarrow> r),
                s_checkpoints := s_checkpoints vm,
                s_trace := s_trace st1 @
                  [EvRevert, EvCallback (Some (failure_error (ExecutorFailed e))) None]\<rparr>"
    by blast
  note fr = beforeBlock_frame[OF bb]
  from run obtain v where vs: "vs = [v]" and k: "length rs < length (b_transactions blk)"
    and fail: "\<exists>b root. fst (runTx env (b_transactions blk ! length rs) b root) = ExecErr e v"
    by (auto simp: tx_run_def)
  from run have ok: "\<forall>i<length rs. \<exists>b root.
      fst (runTx env (b_transactions blk ! i) b root) = ExecOk (rs ! i)"
    by (simp add: tx_run_def)
  have rc: "st_receipts st' = map Some (receipts_of 0 rs) @ [None]"
    using run vs fr(4,6) by (simp add: tx_run_def st')
  have rs: "st_txResults st' = map ResultVal rs @ [v]"
    using run vs fr(7) by (simp add: tx_run_def st')
  have tr: "s_trace st' = s_trace vm @ EvCheckpoint # EvBeforeBlock blk #
             map EvRunTx (take (length rs + 1) (b_transactions blk)) @
             [EvRevert, EvCallback (Some e) None]"
    using run vs fr(2) by (simp add: tx_run_def st')
  have cb: "callback_args (runBlock env (Some os) vm) = (Some e, None)"
    using assms(2) by simp
  from k ok fail rc rs tr cb show ?thesis
    by (intro exI[of _ "length rs"] exI[of _ rs] exI[of _ v]) simp
qed

theorem executor_failure_appends_null_receipt_witness:
  "o_block (demo_opts (demo_block [demo_tx 10 [1], demo_tx 20 []] []) False None) =
     Some (demo_block [demo_tx 10 [1], demo_tx 20 []] []) \<and>
   runBlock demo_env (Some (demo_opts (demo_block [demo_tx 10 [1], demo_tx 20 []] []) False None))
       demo_vm =
     Aborted (ExecutorFailed (Error ''out of gas''))
       (the (closure_of (runBlock demo_env
          (Some (demo_opts (demo_block [demo_tx 10 [1], demo_tx 20 []] []) False None)) demo_vm))) \<and>
   st_receipts (the (closure_of (runBlock demo_env
          (Some (demo_opts (demo_block [demo_tx 10 [1], demo_tx 20 []] []) False None)) demo_vm))) =
     [Some \<lparr>rc_status = 1, rc_gasUsed = [10], rc_bitvector = 1, rc_logs = []\<rparr>, None] \<and>
   st_txResults (the (closure_of (runBlock demo_env
          (Some (demo_opts (demo_block [demo_tx 10 [1], demo_tx 20 []] []) False None)) demo_vm))) =
     [ResultVal \<lparr>r_gasUsed = 10, r_bloom = 1, r_exception = 1, r_logs = None\<rparr>, Undefined]"
  using executor_failure_appends_null_receipt
    [of "demo_opts (demo_block [demo_tx 10 [1], demo_tx 20 []] []) False None"
        "demo_block [demo_tx 10 [1], demo_tx 20 []] []" demo_env demo_vm
        "Error ''out of gas''"
        "the (closure_of (runBlock demo_env
          (Some (demo_opts (demo_block [demo_tx 10 [1], demo_tx 20 []] []) False None)) demo_vm))"]
  by (simp add: run_defs demo_defs be_bytes.simps)

text \<open>
  C6 as stated fails where the executor passes no result with its error: the last entry of
  the results is then undefined, not the error, and the callback gets no result object.
\<close>

theorem executor_failure_counterexample:
  "runBlock demo_env (Some (demo_opts (demo_block [demo_tx 10 [1], demo_tx 20 []] []) False None))
       demo_vm =
     Aborted (ExecutorFailed (Error ''out of gas''))
       (the (closure_of (runBlock demo_env
          (Some (demo_opts (demo_block [demo_tx 10 [1], demo_tx 20 []] []) False None)) demo_vm))) \<and>
   last (st_txResults (the (closure_of (runBlock demo_env
          (Some (demo_opts (demo_block [demo_tx 10 [1], demo_tx 20 []] []) False None)) demo_vm)))) =
     Undefined \<and>
   last (st_txResults (the (closure_of (runBlock demo_env
          (Some (demo_opts (demo_block [demo_tx 10 [1], demo_tx 20 []] []) False None)) demo_vm)))) \<noteq>
     ErrorVal (Error ''out of gas'') \<and>
   callback_args (runBlock demo_env
       (Some (demo_opts (demo_block [demo_tx 10 [1], demo_tx 20 []] []) False None)) demo_vm) =
     (Some (Error ''out of gas''), None)"
  by (simp add: run_defs demo_defs)

subsection \<open>The afterBlock hook\<close>




subsection \<open>Invalid input\<close>

text \<open>
  C8. When the options carry no block, the function calls back with the error
  \<^verbatim>\<open>invalid input, block must be provided\<close> and nothing else: the root pointer and the
  stack of checkpoints are as they were (also when \<^verbatim>\<open>opts.root\<close> is given), and the
  callback is the only call that is made, so no checkpoint is opened and no hook fires.
\<close>

theorem no_block_invalid_input:
  assumes "o_block os = None"
  shows "runBlock env (Some os) vm =
           InvalidInput (Error ''invalid input, block must be provided'')
             (vm\<lparr>s_trace := s_trace vm @
                [EvCallback (Some (Error ''invalid input, block must be provided'')) None]\<rparr>) \<and>
         callback_args (runBlock env (Some os) vm) =
           (Some (Error ''invalid input, block must be provided''), None)"
  using assms by (simp add: runBlock_def Let_def)

theorem no_block_invalid_input_witness:
  "o_block \<lparr>o_block = None, o_generate = False, o_root = Some [7]\<rparr> = None \<and>
   runBlock demo_env (Some \<lparr>o_block = None, o_generate = False, o_root = Some [7]\<rparr>) demo_vm =
     InvalidInput (Error ''invalid input, block must be provided'')
       \<lparr>s_root = [0], s_checkpoints = [],
        s_trace = [EvCallback (Some (Error ''invalid input, block must be provided'')) None]\<rparr>"
  using no_block_invalid_input [of "\<lparr>o_block = None, o_generate = False, o_root = Some [7]\<rparr>"
      demo_env demo_vm]
  by (simp add: demo_vm_def)

subsection \<open>Rejection at the gas limit\<close>

text \<open>
  C9. When the run ends because transaction \<open>k\<close> does not pass the gas limit check, the
  receipts and the results both have exactly \<open>k\<close> entries, those of the \<open>k\<close>
  transactions before it, none of them null: the executor was called for these and not for
  transaction \<open>k\<close>, and nothing was appended for it. A step of the loop that ends in the
  gas limit error leaves the state as it was, where a step that ends in an error of the
  executor has appended a null receipt and an entry of the results.
\<close>

theorem gas_limit_rejection_appends_nothing:
  assumes "o_block os = Some blk"
    and "runBlock env (Some os) vm = Aborted GasLimitExceeded st'"
  shows "(\<exists>k rs. k < length (b_transactions blk) \<and> length rs = k \<and>
           length (st_receipts st') = k \<and> length (st_txResults st') = k \<and>
           st_receipts st' = map Some (receipts_of 0 rs) \<and>
           st_txResults st' = map ResultVal rs \<and>
           s_trace st' = s_trace vm @ EvCheckpoint # EvBeforeBlock blk #
             map EvRunTx (take k (b_transactions blk)) @
             [EvRevert,
              EvCallback (Some (Error ''tx has a higher gas limit than the block'')) None] \<and>
           int (h_gasLimit (b_header blk)) <
             int (tx_gasLimit (b_transactions blk ! k)) + int (sum_list (map r_gasUsed rs))) \<and>
         (\<forall>g s t s'. processTx env g s t = Abort GasLimitExceeded s' \<longrightarrow> s' = s) \<and>
         (\<forall>g s t e s'. processTx env g s t = Abort (ExecutorFailed e) s' \<longrightarrow>
            (\<exists>v. st_receipts s' = st_receipts s @ [None] \<and>
                 st_txResults s' = st_txResults s @ [v]))"
proof -
  from runBlock_tx_abort[OF assms] obtain sta st1 rs vs where
    bb: "beforeBlock env (start os vm blk) = (None, sta)" and
    run: "tx_run env (o_generate os) sta (b_transactions blk) (Some GasLimitExceeded) st1 rs vs" and
    st': "st' = st1\<lparr>s_root := (case o_root os of None \<Rightarrow> s_root vm | Some r \<Rightarrow> r),
                s_checkpoints := s_checkpoints vm,
                s_trace := s_trace st1 @
                  [EvRevert, EvCallback (Some (failure_error GasLimitExceeded)) None]\<rparr>"
    by blast
  note fr = beforeBlock_frame[OF bb]
  from run have vs: "vs = []" and k: "length rs < length (b_transactions blk)"
    and hi: "gasLimitIsHigherThanBlock st1 (b_transactions blk ! length rs)"
    by (simp_all add: tx_run_def)
  have "h_gasLimit (b_header (st_block st1)) = h_gasLimit (b_header blk)"
    using tx_run_gasLimit[OF run] fr(3) by simp
  moreover have "st_gasUsed st1 = int (sum_list (map r_gasUsed rs))"
    using run fr(4) by (simp add: tx_run_def)
  ultimately have lim: "int (h_gasLimit (b_header blk)) <
      int (tx_gasLimit (b_transactions blk ! length rs)) + int (sum_list (map r_gasUsed rs))"
    using hi by (simp add: gasLimitIsHigherThanBlock_def)
  have rc: "st_receipts st' = map Some (receipts_of 0 rs)"
    using run vs fr(4,6) by (simp add: tx_run_def st')
  have rs: "st_txResults st' = map ResultVal rs"
    using run vs fr(7) by (simp add: tx_run_def st')
  have tr: "s_trace st' = s_trace vm @ EvCheckpoint # EvBeforeBlock blk #
             map EvRunTx (take (length rs) (b_transactions blk)) @
             [EvRevert,
              EvCallback (Some (Error ''tx has a higher gas limit than the block'')) None]"
    using run vs fr(2) by (simp add: tx_run_def st')
  from k lim rc rs tr have run: "\<exists>k rs. k < length (b_transactions blk) \<and> length rs = k \<and>
           length (st_receipts st') = k \<and> length (st_txResults st') = k \<and>
           st_receipts st' = map Some (receipts_of 0 rs) \<and>
           st_txResults st' = map ResultVal rs \<and>
           s_trace st' = s_trace vm @ EvCheckpoint # EvBeforeBlock blk #
             map EvRunTx (take k (b_transactions blk)) @
             [EvRevert,
              EvCallback (Some (Error ''tx has a higher gas limit than the block'')) None] \<and>
           int (h_gasLimit (b_header blk)) <
             int (tx_gasLimit (b_transactions blk ! k)) + int (sum_list (map r_gasUsed rs))"
    by (intro exI[of _ "length rs"] exI[of _ rs]) simp
  have rejected: "s' = s" if "processTx env g s t = Abort GasLimitExceeded s'" for g s t s'
    by (rule processTx_cases[of s t env g]) (use that in auto)
  have failed: "\<exists>v. st_receipts s' = st_receipts s @ [None] \<and> st_txResults s' = st_txResults s @ [v]"
    if "processTx env g s t = Abort (ExecutorFailed e) s'" for g s t e s'
    by (rule processTx_cases[of s t env g]) (use that in auto)
  from run rejected failed show ?thesis by blast
qed

theorem gas_limit_rejection_appends_nothing_witness:
  "o_block (demo_opts (demo_block [demo_tx 60 [1], demo_tx 50 [2]] []) False None) =
     Some (demo_block [demo_tx 60 [1], demo_tx 50 [2]] []) \<and>
   runBlock demo_env (Some (demo_opts (demo_block [demo_tx 60 [1], demo_tx 50 [2]] []) False None))
       demo_vm =
     Aborted GasLimitExceeded
       (the (closure_of (runBlock demo_env
          (Some (demo_opts (demo_block [demo_tx 60 [1], demo_tx 50 [2]] []) False None)) demo_vm))) \<and>
   length (st_receipts (the (closure_of (runBlock demo_env
          (Some (demo_opts (demo_block [demo_tx 60 [1], demo_tx 50 [2]] []) False None)) demo_vm)))) = 1 \<and>
   length (st_txResults (the (closure_of (runBlock demo_env
          (Some (demo_opts (demo_block [demo_tx 60 [1], demo_tx 50 [2]] []) False None)) demo_vm)))) = 1 \<and>
   executed (final_trace (runBlock demo_env
          (Some (demo_opts (demo_block [demo_tx 60 [1], demo_tx 50 [2]] []) False None)) demo_vm)) =
     [demo_tx 60 [1]]"
  using gas_limit_rejection_appends_nothing
    [of "demo_opts (demo_block [demo_tx 60 [1], demo_tx 50 [2]] []) False None"
        "demo_block [demo_tx 60 [1], demo_tx 50 [2]] []" demo_env demo_vm
        "the (closure_of (runBlock demo_env
          (Some (demo_opts (demo_block [demo_tx 60 [1], demo_tx 50 [2]] []) False None)) demo_vm))"]
  by (simp add: run_defs demo_defs)

subsection \<open>The header bloom in generate mode\<close>

text \<open>
  C10. In generate mode every successful transaction leaves the running aggregate bloom in
  the header. When the run then ends in a block-fatal error, the root pointer is back at its
  value at the checkpoint, but the header of the block still holds the aggregate of the
  blooms of the transactions that succeeded (the header is as given when none did).
\<close>

theorem header_bloom_survives_revert:
  assumes "o_block os = Some blk" and "o_generate os"
    and "runBlock env (Some os) vm = Aborted f st'"
  shows "h_bloom (b_header (st_block st')) =
           (if receipt_blooms (st_receipts st') = [] then h_bloom (b_header blk)
            else foldl bloom_or new_Bloom (receipt_blooms (st_receipts st'))) \<and>
         st_block st' =
           (if receipt_blooms (st_receipts st') = [] then blk
            else setHeaderBloom blk (foldl bloom_or new_Bloom (receipt_blooms (st_receipts st')))) \<and>
         s_root st' = (case o_root os of None \<Rightarrow> s_root vm | Some r \<Rightarrow> r) \<and>
         (\<forall>st t st1. processTx env True st t = Next st1 \<longrightarrow>
            h_bloom (b_header (st_block st1)) = st_bloom st1)"
proof -
  from runBlock_Aborted_D[OF assms(1,3)] obtain st1 where
    ser: "series env (o_generate os) (start os vm blk) = (Some f, st1)" and
    st': "st' = st1\<lparr>s_root := (case o_root os of None \<Rightarrow> s_root vm | Some r \<Rightarrow> r),
                s_checkpoints := s_checkpoints vm,
                s_trace := s_trace st1 @ [EvRevert, EvCallback (Some (failure_error f)) None]\<rparr>"
    by blast
  from series_blooms[OF ser] assms(2) have
    "st_block st1 =
       (if receipt_blooms (st_receipts st1) = [] then blk
        else setHeaderBloom blk (foldl bloom_or new_Bloom (receipt_blooms (st_receipts st1))))"
    by simp
  then show ?thesis
    using processTx_generate_bloom by (simp add: st' setHeaderBloom_def)
qed

theorem header_bloom_survives_revert_witness:
  "o_block (demo_opts (demo_block [demo_tx 10 [1], demo_tx 20 [2, 2], demo_tx 5 []] []) True None) =
     Some (demo_block [demo_tx 10 [1], demo_tx 20 [2, 2], demo_tx 5 []] []) \<and>
   o_generate (demo_opts (demo_block [demo_tx 10 [1], demo_tx 20 [2, 2], demo_tx 5 []] []) True None) \<and>
   runBlock demo_env
       (Some (demo_opts (demo_block [demo_tx 10 [1], demo_tx 20 [2, 2], demo_tx 5 []] []) True None))
       demo_vm =
     Aborted (ExecutorFailed (Error ''out of gas''))
       (the (closure_of (runBlock demo_env
          (Some (demo_opts (demo_block [demo_tx 10 [1], demo_tx 20 [2, 2], demo_tx 5 []] []) True None))
          demo_vm))) \<and>
   h_bloom (b_header (demo_block [demo_tx 10 [1], demo_tx 20 [2, 2], demo_tx 5 []] [])) = 0 \<and>
   h_bloom (b_header (st_block (the (closure_of (runBlock demo_env
          (Some (demo_opts (demo_block [demo_tx 10 [1], demo_tx 20 [2, 2], demo_tx 5 []] []) True None))
          demo_vm))))) = 3 \<and>
   s_root (the (closure_of (runBlock demo_env
          (Some (demo_opts (demo_block [demo_tx 10 [1], demo_tx 20 [2, 2], demo_tx 5 []] []) True None))
          demo_vm))) = s_root demo_vm"
  using header_bloom_survives_revert
    [of "demo_opts (demo_block [demo_tx 10 [1], demo_tx 20 [2, 2], demo_tx 5 []] []) True None"
        "demo_block [demo_tx 10 [1], demo_tx 20 [2, 2], demo_tx 5 []] []"
        demo_env demo_vm "ExecutorFailed (Error ''out of gas'')"
        "the (closure_of (runBlock demo_env
          (Some (demo_opts (demo_block [demo_tx 10 [1], demo_tx 20 [2, 2], demo_tx 5 []] []) True None))
          demo_vm))"]
  by (simp add: run_defs demo_defs be_bytes.simps)

end
